theory Spec2Isabelle
  imports Complex_Main "HOL-Library.Multiset"
begin

section \<open>Retrieval, confidence and diversity selection of \<open>search_system_v4.py\<close>\<close>

text \<open>
  The theory embeds the decision logic of the class \<open>FlexibleSearchSystem\<close>:
  \<open>search_all_namespaces\<close>, \<open>calculate_confidence_level\<close>,
  \<open>select_diverse_results\<close> and the control flow of \<open>search_and_answer\<close>.
  The OpenAI and Pinecone clients are parameters of the model: a call that raises is
  a value of an error type.
\<close>

subsection \<open>Python floats\<close>

text \<open>
  A Python float is either NaN or a number. Numbers are taken as reals: rounding and
  the infinities are not modelled. Every comparison with NaN is false and every
  arithmetic operation on NaN gives NaN, as in IEEE 754.
\<close>

datatype pyfloat = NaN | Fin real

fun py_mul :: "pyfloat \<Rightarrow> pyfloat \<Rightarrow> pyfloat" where
  "py_mul (Fin a) (Fin b) = Fin (a * b)"
| "py_mul _ _ = NaN"

fun py_add :: "pyfloat \<Rightarrow> pyfloat \<Rightarrow> pyfloat" where
  "py_add (Fin a) (Fin b) = Fin (a + b)"
| "py_add _ _ = NaN"

fun py_ge :: "pyfloat \<Rightarrow> pyfloat \<Rightarrow> bool" where
  "py_ge (Fin a) (Fin b) = (a \<ge> b)"
| "py_ge _ _ = False"

fun py_lt :: "pyfloat \<Rightarrow> pyfloat \<Rightarrow> bool" where
  "py_lt (Fin a) (Fin b) = (a < b)"
| "py_lt _ _ = False"

fun is_nan :: "pyfloat \<Rightarrow> bool" where
  "is_nan NaN = True"
| "is_nan (Fin _) = False"

fun fins :: "pyfloat list \<Rightarrow> real list option" where
  "fins [] = Some []"
| "fins (NaN # _) = None"
| "fins (Fin v # xs) = map_option ((#) v) (fins xs)"

text \<open>
  \<open>numpy.std\<close> with its default \<open>ddof = 0\<close>: the square root of the mean of the
  squared deviations from the mean. One NaN makes the mean, and so the result, NaN; the
  empty array gives NaN as well.
\<close>

definition np_std :: "pyfloat list \<Rightarrow> pyfloat" where
  "np_std xs =
     (case fins xs of
        None \<Rightarrow> NaN
      | Some [] \<Rightarrow> NaN
      | Some vs \<Rightarrow>
          (let n = real (length vs);
               mean = sum_list vs / n
           in Fin (sqrt (sum_list (map (\<lambda>v. (v - mean)\<^sup>2) vs) / n))))"

subsection \<open>Python lists\<close>

text \<open>The slice \<open>xs[:k]\<close>: a negative \<open>k\<close> counts from the end.\<close>

definition slice_to :: "'a list \<Rightarrow> int \<Rightarrow> 'a list" where
  "slice_to xs k = (if 0 \<le> k then take (nat k) xs else take (length xs - nat (- k)) xs)"

text \<open>
  \<open>list.sort(key=..., reverse=...)\<close> as CPython 3.11 runs it on a list of fewer than
  64 entries (\<open>listsort\<close>, \<open>count_run\<close> and \<open>binarysort\<close> of
  \<open>Objects/listobject.c\<close>). It compares keys with \<open><\<close> only. With
  \<open>reverse=True\<close> the list is reversed, sorted and reversed again.

  The sort first takes the longest run at the front of the list: entries none of which
  is less than the one before it, or entries each of which is less than the one before
  it; a run of the second kind is reversed.
\<close>

fun ascending_run :: "('a \<Rightarrow> pyfloat) \<Rightarrow> 'a \<Rightarrow> 'a list \<Rightarrow> nat" where
  "ascending_run key prev [] = 0"
| "ascending_run key prev (x # xs) =
     (if py_lt (key x) (key prev) then 0 else Suc (ascending_run key x xs))"

fun descending_run :: "('a \<Rightarrow> pyfloat) \<Rightarrow> 'a \<Rightarrow> 'a list \<Rightarrow> nat" where
  "descending_run key prev [] = 0"
| "descending_run key prev (x # xs) =
     (if py_lt (key x) (key prev) then Suc (descending_run key x xs) else 0)"

fun count_run :: "('a \<Rightarrow> pyfloat) \<Rightarrow> 'a list \<Rightarrow> nat \<times> bool" where
  "count_run key [] = (0, False)"
| "count_run key [x] = (1, False)"
| "count_run key (x0 # x1 # xs) =
     (if py_lt (key x1) (key x0) then (2 + descending_run key x1 xs, True)
      else (2 + ascending_run key x1 xs, False))"

text \<open>
  Every later entry, the pivot, is then inserted into the run at the position a binary
  search gives: \<open>l\<close> and \<open>r\<close> bound the position, \<open>p\<close> is their midpoint, and
  the pivot goes left of \<open>p\<close> when it is less than the entry there, right of it
  otherwise.
\<close>

function bisect :: "('a \<Rightarrow> pyfloat) \<Rightarrow> 'a \<Rightarrow> 'a list \<Rightarrow> nat \<Rightarrow> nat \<Rightarrow> nat" where
  "bisect key pivot run l r =
     (if l < r then
        (let p = l + (r - l) div 2
         in if py_lt (key pivot) (key (run ! p)) then bisect key pivot run l p
            else bisect key pivot run (p + 1) r)
      else l)"
  by pat_completeness auto
termination
  by (relation "measure (\<lambda>(key, pivot, run, l, r). r - l)") auto

declare bisect.simps [simp del]

definition binary_insert :: "('a \<Rightarrow> pyfloat) \<Rightarrow> 'a \<Rightarrow> 'a list \<Rightarrow> 'a list" where
  "binary_insert key pivot run =
     (let l = bisect key pivot run 0 (length run) in take l run @ pivot # drop l run)"

fun binarysort :: "('a \<Rightarrow> pyfloat) \<Rightarrow> 'a list \<Rightarrow> 'a list \<Rightarrow> 'a list" where
  "binarysort key run [] = run"
| "binarysort key run (pivot # rest) = binarysort key (binary_insert key pivot run) rest"

text \<open>
  A list of 64 or more entries CPython cuts into several runs and merges them; the
  merges are not modelled, and \<open>listsort\<close> treats such a list as one run as well.
  When no key is NaN the keys are totally ordered, the result is the one stable
  ordering of the list (\<open>listsort_numbers\<close>), and CPython returns the same list
  whatever its length. With a NaN key the definition is CPython's result for lists of
  fewer than 64 entries; the configured partitions return at most 9 matches
  (\<open>configured_results_bounded\<close>).
\<close>

definition listsort :: "('a \<Rightarrow> pyfloat) \<Rightarrow> 'a list \<Rightarrow> 'a list" where
  "listsort key xs =
     (if length xs < 2 then xs
      else (let (n, descending) = count_run key xs;
                run = take n xs
            in binarysort key (if descending then rev run else run) (drop n xs)))"

definition list_sort :: "('a \<Rightarrow> pyfloat) \<Rightarrow> bool \<Rightarrow> 'a list \<Rightarrow> 'a list" where
  "list_sort key reverse xs =
     (if reverse then rev (listsort key (rev xs)) else listsort key xs)"

subsection \<open>Data\<close>

datatype py_exception = KeyError | ServiceError

text \<open>
  A match of a Pinecone response, with its keys \<open>id\<close>, \<open>score\<close> and
  \<open>metadata\<close>. The code reads \<open>match['score']\<close>; the key being absent is
  \<open>None\<close> and raises \<open>KeyError\<close> there. The other two keys are taken as
  present. The metadata is opaque to the functions modelled here.
\<close>

record 'm match =
  match_id :: string
  match_score :: "pyfloat option"
  match_metadata :: 'm

record namespace_config =
  weight :: pyfloat
  top_k :: nat
  description :: string

text \<open>
  The dictionary built for every match in \<open>search_all_namespaces\<close>; its key
  \<open>id\<close> is the field \<open>result_id\<close>.
\<close>

record 'm result =
  result_id :: string
  score :: pyfloat
  weighted_score :: pyfloat
  namespace :: string
  namespace_desc :: string
  metadata :: 'm

text \<open>
  \<open>self.namespace_configs\<close>, a dictionary iterated in insertion order. The
  descriptions are Korean text, given here by their UTF-8 bytes.
\<close>

definition namespace_configs :: "(string \<times> namespace_config) list" where
  "namespace_configs =
     [(''faq'', \<lparr>weight = Fin 1.2, top_k = 3, description = ''FAQ''\<rparr>),
      (''dictionary'', \<lparr>weight = Fin 1.0, top_k = 2, description =
         [CHR 0xEC, CHR 0x9A, CHR 0xA9, CHR 0xEC, CHR 0x96, CHR 0xB4,
          CHR 0xEC, CHR 0x82, CHR 0xAC, CHR 0xEC, CHR 0xA0, CHR 0x84]\<rparr>),
      (''concept'', \<lparr>weight = Fin 0.9, top_k = 2, description =
         [CHR 0xEA, CHR 0xB0, CHR 0x9C, CHR 0xEB, CHR 0x85, CHR 0x90,
          CHR 0xEC, CHR 0x84, CHR 0xA4, CHR 0xEB, CHR 0xAA, CHR 0x85]\<rparr>),
      (''chunk'', \<lparr>weight = Fin 0.8, top_k = 2, description =
         [CHR 0xEA, CHR 0xB5, CHR 0x90, CHR 0xEA, CHR 0xB3, CHR 0xBC,
          CHR 0xEC, CHR 0x84, CHR 0x9C]\<rparr>)]"

subsection \<open>\<open>search_all_namespaces\<close>\<close>

text \<open>
  The inner loop over \<open>response['matches']\<close>. It appends to \<open>all_results\<close> in
  place, so what was appended before an exception stays: the function returns the
  exception, if any, together with the list.
\<close>

fun append_matches ::
  "string \<Rightarrow> namespace_config \<Rightarrow> 'm match list \<Rightarrow> 'm result list
     \<Rightarrow> py_exception option \<times> 'm result list" where
  "append_matches ns config [] all_results = (None, all_results)"
| "append_matches ns config (m # ms) all_results =
     (case match_score m of
        None \<Rightarrow> (Some KeyError, all_results)
      | Some s \<Rightarrow>
          append_matches ns config ms
            (all_results @
              [\<lparr>result_id = match_id m, score = s,
                weighted_score = py_mul s (weight config),
                namespace = ns, namespace_desc = description config,
                metadata = match_metadata m\<rparr>]))"

text \<open>
  The loop over the namespaces. \<open>query k ns\<close> is \<open>self.index.query\<close> for the
  given \<open>top_k\<close> and namespace: \<open>Inl\<close> when the call raises. Every exception of
  the loop body is caught and the loop goes on with the next namespace.
\<close>

fun collect_namespaces ::
  "(string \<times> namespace_config) list \<Rightarrow> (nat \<Rightarrow> string \<Rightarrow> py_exception + 'm match list)
     \<Rightarrow> 'm result list \<Rightarrow> 'm result list" where
  "collect_namespaces [] query all_results = all_results"
| "collect_namespaces ((ns, config) # rest) query all_results =
     (case query (top_k config) ns of
        Inl e \<Rightarrow> collect_namespaces rest query all_results
      | Inr matches \<Rightarrow>
          collect_namespaces rest query (snd (append_matches ns config matches all_results)))"

definition search_all_namespaces ::
  "(string \<times> namespace_config) list
     \<Rightarrow> (pyfloat list \<Rightarrow> nat \<Rightarrow> string \<Rightarrow> py_exception + 'm match list)
     \<Rightarrow> pyfloat list \<Rightarrow> 'm result list" where
  "search_all_namespaces configs index_query query_embedding =
     list_sort weighted_score True
       (collect_namespaces configs (index_query query_embedding) [])"

subsection \<open>\<open>calculate_confidence_level\<close>\<close>

definition calculate_confidence_level :: "'m result list \<Rightarrow> string \<times> pyfloat" where
  "calculate_confidence_level results =
     (case results of
        [] \<Rightarrow> (''none'', Fin 0.0)
      | r0 # _ \<Rightarrow>
          (let best_score = weighted_score r0;
               confidence =
                 (if py_ge best_score (Fin 0.8) then ''high''
                  else if py_ge best_score (Fin 0.6) then ''medium''
                  else if py_ge best_score (Fin 0.4) then ''low''
                  else ''very_low'');
               confidence_score =
                 (if length results \<ge> 2 then
                    (let score_variance = np_std (map weighted_score (take 3 results))
                     in if py_lt score_variance (Fin 0.1)
                        then py_add best_score (Fin 0.05)
                        else best_score)
                  else best_score)
           in (confidence, confidence_score)))"

subsection \<open>\<open>select_diverse_results\<close>\<close>

text \<open>
  The loop over the candidates, on the state \<open>(selected, namespace_count)\<close>.
  \<open>namespace_count\<close> is a \<open>defaultdict(int)\<close>: a total function, 0 where nothing
  was counted. The first branch is the \<open>break\<close>.
\<close>

fun diversity_loop ::
  "int \<Rightarrow> 'm result list \<Rightarrow> 'm result list \<times> (string \<Rightarrow> nat)
     \<Rightarrow> 'm result list \<times> (string \<Rightarrow> nat)" where
  "diversity_loop max_results [] (selected, namespace_count) = (selected, namespace_count)"
| "diversity_loop max_results (result # candidates) (selected, namespace_count) =
     (if int (length selected) \<ge> max_results then (selected, namespace_count)
      else if namespace_count (namespace result) < 2 then
        diversity_loop max_results candidates
          (selected @ [result],
           namespace_count(namespace result := namespace_count (namespace result) + 1))
      else diversity_loop max_results candidates (selected, namespace_count))"

text \<open>
  The state after the loop, for a non-empty list \<open>best_result # rest\<close>: the best
  result is selected first, the candidates are the other results at or above 80 percent
  of its weighted score.
\<close>

definition diversity_pass ::
  "'m result \<Rightarrow> 'm result list \<Rightarrow> int \<Rightarrow> 'm result list \<times> (string \<Rightarrow> nat)" where
  "diversity_pass best_result rest max_results =
     (let threshold = py_mul (weighted_score best_result) (Fin 0.8);
          candidates = filter (\<lambda>r. py_ge (weighted_score r) threshold) rest
      in diversity_loop max_results candidates
           ([best_result], (\<lambda>_. 0)(namespace best_result := 1)))"

text \<open>
  \<open>r not in selected\<close> compares dictionaries by value, as the equality of records
  does. \<open>max_results\<close> is a Python integer and may be negative.
\<close>

definition select_diverse_results :: "'m result list \<Rightarrow> int \<Rightarrow> 'm result list" where
  "select_diverse_results results max_results =
     (case results of
        [] \<Rightarrow> []
      | best_result # rest \<Rightarrow>
          (let selected = fst (diversity_pass best_result rest max_results);
               selected =
                 (if int (length selected) < max_results then
                    (let remaining = filter (\<lambda>r. r \<notin> set selected) results
                     in selected @ slice_to remaining (max_results - int (length selected)))
                  else selected)
           in slice_to selected max_results))"

subsection \<open>\<open>search_and_answer\<close>\<close>

text \<open>
  \<open>create_query_embedding\<close> catches the exception of the embedding call and raises
  it again. \<open>embeddings_create\<close> is the call to the OpenAI client.
\<close>

definition create_query_embedding ::
  "(string \<Rightarrow> py_exception + pyfloat list) \<Rightarrow> string \<Rightarrow> py_exception + pyfloat list" where
  "create_query_embedding embeddings_create query =
     (case embeddings_create query of Inl e \<Rightarrow> Inl e | Inr embedding \<Rightarrow> Inr embedding)"

text \<open>
  The dictionary returned by \<open>search_and_answer\<close>; its keys carry the prefix
  \<open>resp_\<close> here. The key \<open>sources\<close> is absent from the response for an empty
  result list. The field \<open>execution_time\<close>, read from
  the clock, is left out.
\<close>

record 'm response =
  resp_query :: string
  resp_answer :: string
  resp_confidence :: string
  resp_confidence_score :: pyfloat
  resp_results :: "'m result list"
  resp_sources :: "string list option"

text \<open>The answer for an empty result list, Korean text given by its UTF-8 bytes.\<close>

definition not_found_answer :: string where
  "not_found_answer =
     [CHR 0xEA, CHR 0xB4, CHR 0x80, CHR 0xEB, CHR 0xA0, CHR 0xA8, CHR 0x20, CHR 0xEC,
      CHR 0xA0, CHR 0x95, CHR 0xEB, CHR 0xB3, CHR 0xB4, CHR 0xEB, CHR 0xA5, CHR 0xBC,
      CHR 0x20, CHR 0xEC, CHR 0xB0, CHR 0xBE, CHR 0xEC, CHR 0x9D, CHR 0x84, CHR 0x20,
      CHR 0xEC, CHR 0x88, CHR 0x98, CHR 0x20, CHR 0xEC, CHR 0x97, CHR 0x86, CHR 0xEC,
      CHR 0x96, CHR 0xB4, CHR 0xEC, CHR 0x9A, CHR 0x94, CHR 0x2E, CHR 0x20, CHR 0xEB,
      CHR 0x8B, CHR 0xA4, CHR 0xEB, CHR 0xA5, CHR 0xB8, CHR 0x20, CHR 0xEC, CHR 0xA7,
      CHR 0x88, CHR 0xEB, CHR 0xAC, CHR 0xB8, CHR 0xEC, CHR 0x9D, CHR 0x84, CHR 0x20,
      CHR 0xED, CHR 0x95, CHR 0xB4, CHR 0xEB, CHR 0xB3, CHR 0xB4, CHR 0xEC, CHR 0x8B,
      CHR 0x9C, CHR 0xEA, CHR 0xB1, CHR 0xB0, CHR 0xEB, CHR 0x82, CHR 0x98, CHR 0x20,
      CHR 0xEC, CHR 0x84, CHR 0xA0, CHR 0xEC, CHR 0x83, CHR 0x9D, CHR 0xEB, CHR 0x8B,
      CHR 0x98, CHR 0xEA, CHR 0xBB, CHR 0x98, CHR 0x20, CHR 0xEC, CHR 0x97, CHR 0xAC,
      CHR 0xEC, CHR 0xAD, CHR 0xA4, CHR 0xEB, CHR 0xB3, CHR 0xB4, CHR 0xEC, CHR 0x84,
      CHR 0xB8, CHR 0xEC, CHR 0x9A, CHR 0x94, CHR 0x2E]"

text \<open>
  \<open>generate_composite_answer\<close> calls the chat model inside a \<open>try\<close> that returns
  a fixed text on any exception, so it always returns a string; it is the parameter
  \<open>generate\<close>. An exception of \<open>create_query_embedding\<close> is not caught here.
\<close>

definition search_and_answer ::
  "(string \<times> namespace_config) list
     \<Rightarrow> (string \<Rightarrow> py_exception + pyfloat list)
     \<Rightarrow> (pyfloat list \<Rightarrow> nat \<Rightarrow> string \<Rightarrow> py_exception + 'm match list)
     \<Rightarrow> (string \<Rightarrow> 'm result list \<Rightarrow> string \<Rightarrow> string)
     \<Rightarrow> string \<Rightarrow> py_exception + 'm response" where
  "search_and_answer configs embeddings_create index_query generate query =
     (case create_query_embedding embeddings_create query of
        Inl e \<Rightarrow> Inl e
      | Inr query_embedding \<Rightarrow>
          (let all_results = search_all_namespaces configs index_query query_embedding
           in if all_results = [] then
                Inr \<lparr>resp_query = query, resp_answer = not_found_answer,
                     resp_confidence = ''none'', resp_confidence_score = Fin 0,
                     resp_results = [], resp_sources = None\<rparr>
              else
                (let (confidence, confidence_score) = calculate_confidence_level all_results;
                     selected_results = select_diverse_results all_results 3;
                     answer = generate query selected_results confidence
                 in Inr \<lparr>resp_query = query, resp_answer = answer,
                         resp_confidence = confidence,
                         resp_confidence_score = confidence_score,
                         resp_results = selected_results,
                         resp_sources = Some (map namespace_desc selected_results)\<rparr>)))"

subsection \<open>Notions used in the statements\<close>

text \<open>The number read from a float that is not NaN.\<close>

fun fin_of :: "pyfloat \<Rightarrow> real" where
  "fin_of (Fin v) = v"
| "fin_of NaN = 0"

text \<open>
  The results one partition contributes, in the order the similarity search returned
  its matches: the matches before the first one without a score.
\<close>

fun partition_matches :: "string \<Rightarrow> namespace_config \<Rightarrow> 'm match list \<Rightarrow> 'm result list" where
  "partition_matches ns config [] = []"
| "partition_matches ns config (m # ms) =
     (case match_score m of
        None \<Rightarrow> []
      | Some s \<Rightarrow>
          \<lparr>result_id = match_id m, score = s, weighted_score = py_mul s (weight config),
           namespace = ns, namespace_desc = description config,
           metadata = match_metadata m\<rparr> # partition_matches ns config ms)"

text \<open>
  All results before sorting: partition after partition in the order of the
  configuration, a partition whose search fails contributing nothing.
\<close>

fun enumeration_order ::
  "(string \<times> namespace_config) list \<Rightarrow> (nat \<Rightarrow> string \<Rightarrow> py_exception + 'm match list)
     \<Rightarrow> 'm result list" where
  "enumeration_order [] search = []"
| "enumeration_order ((ns, config) # rest) search =
     (case search (top_k config) ns of
        Inl e \<Rightarrow> []
      | Inr matches \<Rightarrow> partition_matches ns config matches) @ enumeration_order rest search"


text \<open>The number of entries of a list that come from the partition \<open>ns\<close>.\<close>

definition count_namespace :: "string \<Rightarrow> 'm result list \<Rightarrow> nat" where
  "count_namespace ns rs = length (filter (\<lambda>r. namespace r = ns) rs)"

text \<open>
  Identifiers are unique within a partition and every partition is configured once
  (the keys of a dictionary are distinct).
\<close>

fun unique_ids ::
  "(string \<times> namespace_config) list \<Rightarrow> (nat \<Rightarrow> string \<Rightarrow> py_exception + 'm match list)
     \<Rightarrow> bool" where
  "unique_ids [] search = True"
| "unique_ids ((ns, config) # rest) search =
     (ns \<notin> set (map fst rest) \<and>
      (case search (top_k config) ns of
         Inl e \<Rightarrow> True
       | Inr matches \<Rightarrow> distinct (map match_id matches)) \<and>
      unique_ids rest search)"

subsection \<open>Concrete inputs\<close>

text \<open>
  Three partitions answer with one match each and the search of \<open>chunk\<close> fails: raw
  scores 0.85, 0.83 and 0.5, weighted 1.02, 0.747 and 0.5.
\<close>

definition example_query ::
  "pyfloat list \<Rightarrow> nat \<Rightarrow> string \<Rightarrow> py_exception + unit match list" where
  "example_query query_embedding k ns =
     (if ns = ''faq'' then
        Inr [\<lparr>match_id = ''id1'', match_score = Some (Fin 0.85), match_metadata = ()\<rparr>]
      else if ns = ''concept'' then
        Inr [\<lparr>match_id = ''id2'', match_score = Some (Fin 0.83), match_metadata = ()\<rparr>]
      else if ns = ''dictionary'' then
        Inr [\<lparr>match_id = ''id3'', match_score = Some (Fin 0.5), match_metadata = ()\<rparr>]
      else Inl ServiceError)"


definition example_result :: "string \<Rightarrow> string \<Rightarrow> real \<Rightarrow> real \<Rightarrow> unit result" where
  "example_result i ns s w =
     \<lparr>result_id = i, score = Fin s, weighted_score = Fin w, namespace = ns,
      namespace_desc = ns, metadata = ()\<rparr>"

text \<open>Three results of one partition ahead of a weak result of another.\<close>

definition crowded_results :: "unit result list" where
  "crowded_results =
     [example_result ''a1'' ''faq'' 0.75 0.9, example_result ''a2'' ''faq'' 0.75 0.9,
      example_result ''a3'' ''faq'' 0.75 0.9, example_result ''b'' ''chunk'' 0.625 0.5]"


definition failing_embedding :: "string \<Rightarrow> py_exception + pyfloat list" where
  "failing_embedding text = Inl ServiceError"

definition constant_embedding :: "string \<Rightarrow> py_exception + pyfloat list" where
  "constant_embedding text = Inr [Fin 0.25, Fin 0.5]"

definition failing_query ::
  "pyfloat list \<Rightarrow> nat \<Rightarrow> string \<Rightarrow> py_exception + unit match list" where
  "failing_query query_embedding k ns = Inl ServiceError"

definition fixed_answer :: "string \<Rightarrow> unit result list \<Rightarrow> string \<Rightarrow> string" where
  "fixed_answer text selected_results confidence = ''answer''"

section \<open>Properties\<close>

subsection \<open>Sorting\<close>

text \<open>The steps of the binary search, as rules for running it on a given list.\<close>

lemma bisect_lt:
  "l < r \<Longrightarrow> py_lt (key pivot) (key (run ! (l + (r - l) div 2))) \<Longrightarrow>
   bisect key pivot run l r = bisect key pivot run l (l + (r - l) div 2)"
  by (subst bisect.simps) (simp add: Let_def)

lemma bisect_ge:
  "l < r \<Longrightarrow> \<not> py_lt (key pivot) (key (run ! (l + (r - l) div 2))) \<Longrightarrow>
   bisect key pivot run l r = bisect key pivot run (l + (r - l) div 2 + 1) r"
  by (subst bisect.simps) (simp add: Let_def)

lemma bisect_done: "\<not> l < r \<Longrightarrow> bisect key pivot run l r = l"
  by (subst bisect.simps) simp

text \<open>The sort permutes its list, whatever the keys are.\<close>

lemma mset_binary_insert: "mset (binary_insert key pivot run) = add_mset pivot (mset run)"
proof -
  have "mset (take l run) + mset (drop l run) = mset run" for l
    by (metis append_take_drop_id mset_append)
  then show ?thesis
    by (simp add: binary_insert_def Let_def)
qed

lemma mset_binarysort: "mset (binarysort key run rest) = mset run + mset rest"
  by (induction rest arbitrary: run) (simp_all add: mset_binary_insert)

lemma mset_listsort: "mset (listsort key xs) = mset xs"
proof -
  have "mset (take n xs) + mset (drop n xs) = mset xs" for n
    by (metis append_take_drop_id mset_append)
  then show ?thesis
    by (auto simp: listsort_def Let_def mset_binarysort split: prod.splits)
qed

lemma mset_list_sort: "mset (list_sort key reverse xs) = mset xs"
  by (simp add: list_sort_def mset_listsort)

lemma list_sort_permutes:
  "set (list_sort key reverse xs) = set xs \<and>
   distinct (list_sort key reverse xs) = distinct xs \<and>
   length (list_sort key reverse xs) = length xs"
  using mset_list_sort [of key reverse xs]
  by (metis mset_eq_setD mset_eq_imp_distinct_iff mset_eq_length)




lemma fin_of_eq_iff: "\<not> is_nan a \<Longrightarrow> \<not> is_nan b \<Longrightarrow> (fin_of a = fin_of b) = (a = b)"
  by (cases a; cases b) simp_all
















subsection \<open>Aggregation\<close>

lemma append_matches_partition:
  "snd (append_matches ns config ms all_results) = all_results @ partition_matches ns config ms"
  by (induction ms arbitrary: all_results) (auto split: option.splits)

lemma collect_namespaces_enumeration:
  "collect_namespaces configs search all_results = all_results @ enumeration_order configs search"
  by (induction configs search all_results rule: collect_namespaces.induct)
     (auto simp: append_matches_partition split: sum.splits)








text \<open>
  The list of all results has no repeated entry when identifiers are unique within a
  partition.
\<close>

lemma partition_matches_namespace:
  "r \<in> set (partition_matches ns config ms) \<Longrightarrow>
   namespace r = ns \<and> result_id r \<in> set (map match_id ms)"
  by (induction ms) (auto split: option.splits)

lemma partition_matches_distinct:
  "distinct (map match_id ms) \<Longrightarrow> distinct (partition_matches ns config ms)"
proof (induction ms)
  case Nil
  then show ?case by simp
next
  case (Cons m ms)
  then show ?case
    by (auto split: option.splits dest!: partition_matches_namespace)
qed

lemma enumeration_order_namespace:
  "r \<in> set (enumeration_order configs search) \<Longrightarrow> namespace r \<in> set (map fst configs)"
  by (induction configs search rule: enumeration_order.induct)
     (auto split: sum.splits dest: partition_matches_namespace)

lemma enumeration_order_distinct:
  "unique_ids configs search \<Longrightarrow> distinct (enumeration_order configs search)"
proof (induction configs search rule: enumeration_order.induct)
  case (1 search)
  then show ?case by simp
next
  case (2 ns config rest search)
  then show ?case
    by (auto split: sum.splits simp: partition_matches_distinct
        dest!: partition_matches_namespace enumeration_order_namespace)
qed

lemma ranked_results_distinct:
  "unique_ids configs (index_query query_embedding) \<Longrightarrow>
   distinct (search_all_namespaces configs index_query query_embedding)"
  by (simp add: search_all_namespaces_def collect_namespaces_enumeration list_sort_permutes
      enumeration_order_distinct)

subsection \<open>Confidence\<close>

lemma sqrt_less_tenth: "(sqrt v < 1 / 10) = (v < 1 / 100)"
proof -
  have e: "sqrt (1 / 100) = 1 / 10"
    by (rule real_sqrt_unique) (simp_all add: power2_eq_square)
  have "(sqrt v < sqrt (1 / 100)) = (v < 1 / 100)"
    by (rule real_sqrt_less_iff)
  then show ?thesis by (simp only: e)
qed

lemma sqrt_times_ten_less: "(sqrt v * 10 < 1) = (v * 100 < 1)"
  using sqrt_less_tenth [of v] by simp
lemma tight_cluster_std:
  "py_lt (np_std [Fin 0.81, Fin 0.80, Fin 0.79]) (Fin 0.1)"
  by (simp add: np_std_def Let_def sqrt_times_ten_less power2_eq_square)

lemma wide_cluster_std:
  "\<not> py_lt (np_std [Fin 0.9, Fin 0.5]) (Fin 0.1)"
  by (simp add: np_std_def Let_def sqrt_times_ten_less power2_eq_square)

text \<open>
  C3. For the empty list the classifier returns \<open>none\<close> with score 0. For a
  non-empty list the level is \<open>high\<close> when the weighted score of the first entry is
  at least 0.8, \<open>medium\<close> from 0.6 and below 0.8, \<open>low\<close> from 0.4 and below 0.6,
  \<open>very_low\<close> below 0.4. The level depends on the first entry's weighted score
  only: not on its raw score and not on the other entries.
\<close>

theorem confidence_level_thresholds:
  "calculate_confidence_level ([] :: 'm result list) = (''none'', Fin 0) \<and>
   (py_ge (weighted_score r) (Fin 0.8) \<longrightarrow>
      fst (calculate_confidence_level (r # rs)) = ''high'') \<and>
   (py_ge (weighted_score r) (Fin 0.6) \<and> py_lt (weighted_score r) (Fin 0.8) \<longrightarrow>
      fst (calculate_confidence_level (r # rs)) = ''medium'') \<and>
   (py_ge (weighted_score r) (Fin 0.4) \<and> py_lt (weighted_score r) (Fin 0.6) \<longrightarrow>
      fst (calculate_confidence_level (r # rs)) = ''low'') \<and>
   (py_lt (weighted_score r) (Fin 0.4) \<longrightarrow>
      fst (calculate_confidence_level (r # rs)) = ''very_low'') \<and>
   (weighted_score r' = weighted_score r \<longrightarrow>
      fst (calculate_confidence_level (r' # rs')) = fst (calculate_confidence_level (r # rs)))"
  for r r' :: "'m result"
  by (cases "weighted_score r") (auto simp: calculate_confidence_level_def Let_def)

theorem confidence_level_thresholds_witness:
  "py_ge (Fin 1.02) (Fin 0.8) \<and>
   fst (calculate_confidence_level [example_result ''a'' ''faq'' 0.85 1.02]) = ''high'' \<and>
   py_ge (Fin 0.6) (Fin 0.6) \<and> py_lt (Fin 0.6) (Fin 0.8) \<and>
   fst (calculate_confidence_level [example_result ''a'' ''faq'' 0.5 0.6]) = ''medium'' \<and>
   py_ge (Fin 0.4) (Fin 0.4) \<and> py_lt (Fin 0.4) (Fin 0.6) \<and>
   fst (calculate_confidence_level
     [example_result ''a'' ''chunk'' 0.5 0.4, example_result ''b'' ''chunk'' 0.3 0.24]) = ''low'' \<and>
   py_lt (Fin 0.39) (Fin 0.4) \<and>
   fst (calculate_confidence_level [example_result ''a'' ''dictionary'' 0.39 0.39]) = ''very_low'' \<and>
   fst (calculate_confidence_level [example_result ''b'' ''concept'' 0.9 0.6,
          example_result ''c'' ''concept'' 0.1 0.09])
     = fst (calculate_confidence_level [example_result ''a'' ''faq'' 0.5 0.6])"
  using
    confidence_level_thresholds [of "example_result ''a'' ''faq'' 0.85 1.02" "[]"
      "example_result ''a'' ''faq'' 0.85 1.02" "[]"]
    confidence_level_thresholds [of "example_result ''a'' ''faq'' 0.5 0.6" "[]"
      "example_result ''b'' ''concept'' 0.9 0.6" "[example_result ''c'' ''concept'' 0.1 0.09]"]
    confidence_level_thresholds [of "example_result ''a'' ''chunk'' 0.5 0.4"
      "[example_result ''b'' ''chunk'' 0.3 0.24]" "example_result ''a'' ''chunk'' 0.5 0.4" "[]"]
    confidence_level_thresholds [of "example_result ''a'' ''dictionary'' 0.39 0.39" "[]"
      "example_result ''a'' ''dictionary'' 0.39 0.39" "[]"]
  by (simp add: example_result_def)

text \<open>
  C4. With two or more results the score is the best weighted score plus 0.05 when the
  population standard deviation of the first three weighted scores (of all of them
  when there are two) is below 0.1, and the best weighted score otherwise. With one
  result the score is its weighted score. The level is the one the best result alone
  would get, where no bonus applies.
\<close>

theorem confidence_score_adjustment:
  "(2 \<le> length results \<longrightarrow>
      snd (calculate_confidence_level results) =
        (if py_lt (np_std (map weighted_score (take 3 results))) (Fin 0.1)
         then py_add (weighted_score (hd results)) (Fin 0.05)
         else weighted_score (hd results))) \<and>
   snd (calculate_confidence_level [r]) = weighted_score r \<and>
   (results \<noteq> [] \<longrightarrow>
      fst (calculate_confidence_level results) = fst (calculate_confidence_level [hd results]))"
  by (cases results) (auto simp: calculate_confidence_level_def Let_def)

theorem confidence_score_adjustment_witness:
  "2 \<le> length [example_result ''a'' ''faq'' 0.675 0.81, example_result ''b'' ''dictionary'' 0.8 0.8,
       example_result ''c'' ''chunk'' 0.9875 0.79, example_result ''d'' ''chunk'' 0.1 0.08] \<and>
   calculate_confidence_level
      [example_result ''a'' ''faq'' 0.675 0.81, example_result ''b'' ''dictionary'' 0.8 0.8,
       example_result ''c'' ''chunk'' 0.9875 0.79, example_result ''d'' ''chunk'' 0.1 0.08]
     = (''high'', Fin 0.86) \<and>
   calculate_confidence_level
      [example_result ''a'' ''faq'' 0.75 0.9, example_result ''b'' ''dictionary'' 0.5 0.5]
     = (''high'', Fin 0.9)"
  using
    confidence_score_adjustment [of
      "[example_result ''a'' ''faq'' 0.675 0.81, example_result ''b'' ''dictionary'' 0.8 0.8,
        example_result ''c'' ''chunk'' 0.9875 0.79, example_result ''d'' ''chunk'' 0.1 0.08]"
      "example_result ''a'' ''faq'' 0.675 0.81"]
    confidence_score_adjustment [of
      "[example_result ''a'' ''faq'' 0.75 0.9, example_result ''b'' ''dictionary'' 0.5 0.5]"
      "example_result ''a'' ''faq'' 0.75 0.9"]
    tight_cluster_std wide_cluster_std
  by (simp add: example_result_def calculate_confidence_level_def prod_eq_iff)

text \<open>
  The bonus moves the score across a threshold without changing the level: from a
  best weighted score of 0.76 the score is 0.81 and the level stays \<open>medium\<close>.
\<close>

lemma bonus_keeps_level:
  "calculate_confidence_level
     [example_result ''a'' ''faq'' 0.7 0.76, example_result ''b'' ''faq'' 0.7 0.75]
   = (''medium'', Fin 0.81)"
  by (simp add: calculate_confidence_level_def example_result_def np_std_def Let_def
      sqrt_times_ten_less power2_eq_square)

subsection \<open>Selection\<close>

lemma slice_to_is_take: "\<exists>n. slice_to xs k = take n xs"
  by (auto simp: slice_to_def)

lemma count_namespace_snoc:
  "count_namespace ns (rs @ [r]) = count_namespace ns rs + (if namespace r = ns then 1 else 0)"
  by (simp add: count_namespace_def)

lemma count_namespace_take: "count_namespace ns (take n rs) \<le> count_namespace ns rs"
proof -
  have "count_namespace ns rs = count_namespace ns (take n rs) + count_namespace ns (drop n rs)"
    unfolding count_namespace_def
    by (metis append_take_drop_id filter_append length_append)
  then show ?thesis by simp
qed

lemma diversity_loop_counts:
  assumes "\<forall>ns. cnt ns = count_namespace ns sel"
    and "diversity_loop k cands (sel, cnt) = (sel', cnt')"
  shows "(\<forall>ns. cnt' ns = count_namespace ns sel') \<and> take (length sel) sel' = sel \<and>
     (\<forall>i. length sel \<le> i \<and> i < length sel' \<longrightarrow>
        count_namespace (namespace (sel' ! i)) (take i sel') < 2 \<and> int i < k)"
  using assms
proof (induction k cands "(sel, cnt)" arbitrary: sel cnt rule: diversity_loop.induct)
  case (1 k sel cnt)
  then show ?case by simp
next
  case (2 k r cands sel cnt)
  show ?case
  proof (cases "int (length sel) \<ge> k")
    case True
    with 2(3,4) show ?thesis by simp
  next
    case brk: False
    show ?thesis
    proof (cases "cnt (namespace r) < 2")
      case True
      let ?cnt1 = "cnt(namespace r := cnt (namespace r) + 1)"
      have inv: "\<forall>ns. ?cnt1 ns = count_namespace ns (sel @ [r])"
        using 2(3) by (simp add: count_namespace_snoc)
      have run: "diversity_loop k cands (sel @ [r], ?cnt1) = (sel', cnt')"
        using 2(4) brk True by simp
      note ih = 2(1) [OF brk True inv run]
      from ih have tk: "take (Suc (length sel)) sel' = sel @ [r]" by simp
      then have len: "length sel < length sel'"
        by (metis Suc_le_lessD length_append_singleton length_take min.cobounded1)
      from tk have tk0: "take (length sel) sel' = sel"
        by (metis butlast_snoc butlast_take diff_Suc_1 len Suc_leI)
      from tk have nth: "sel' ! length sel = r"
        by (metis nth_append_length nth_take lessI)
      have "count_namespace (namespace (sel' ! i)) (take i sel') < 2 \<and> int i < k"
        if "length sel \<le> i" "i < length sel'" for i
      proof (cases "i = length sel")
        case True
        then show ?thesis
          using nth tk0 2(3) \<open>cnt (namespace r) < 2\<close> brk by simp
      next
        case False
        with that ih show ?thesis by simp
      qed
      with ih tk0 show ?thesis by blast
    next
      case False
      have run: "diversity_loop k cands (sel, cnt) = (sel', cnt')"
        using 2(4) brk False by simp
      show ?thesis
        by (rule 2(2) [OF brk False 2(3) run])
    qed
  qed
qed

lemma diversity_loop_cap:
  assumes "\<forall>ns. cnt ns \<le> 2"
    and "diversity_loop k cands (sel, cnt) = (sel', cnt')"
  shows "\<forall>ns. cnt' ns \<le> 2"
  using assms
  by (induction k cands "(sel, cnt)" arbitrary: sel cnt rule: diversity_loop.induct)
     (auto split: if_splits)
lemma diversity_loop_extends:
  "\<exists>picks. fst (diversity_loop k cands (sel, cnt)) = sel @ picks \<and>
     set picks \<subseteq> set cands \<and> (distinct cands \<longrightarrow> distinct picks)"
proof (induction k cands "(sel, cnt)" arbitrary: sel cnt rule: diversity_loop.induct)
  case (1 k sel cnt)
  then show ?case by simp
next
  case (2 k r cands sel cnt)
  show ?case
  proof (cases "int (length sel) \<ge> k")
    case True
    then show ?thesis by simp
  next
    case brk: False
    show ?thesis
    proof (cases "cnt (namespace r) < 2")
      case True
      from 2(1) [OF brk True] obtain picks where
        p: "fst (diversity_loop k cands (sel @ [r], cnt(namespace r := cnt (namespace r) + 1)))
              = (sel @ [r]) @ picks"
          "set picks \<subseteq> set cands" "distinct cands \<longrightarrow> distinct picks"
        by blast
      have "fst (diversity_loop k (r # cands) (sel, cnt)) = sel @ (r # picks)"
        using brk True p(1) by simp
      moreover have "set (r # picks) \<subseteq> set (r # cands)"
        using p(2) by auto
      moreover have "distinct (r # cands) \<longrightarrow> distinct (r # picks)"
        using p(2,3) by auto
      ultimately show ?thesis by blast
    next
      case False
      from 2(2) [OF brk False] obtain picks where
        p: "fst (diversity_loop k cands (sel, cnt)) = sel @ picks"
          "set picks \<subseteq> set cands" "distinct cands \<longrightarrow> distinct picks"
        by blast
      have "fst (diversity_loop k (r # cands) (sel, cnt)) = sel @ picks"
        using brk False p(1) by simp
      moreover have "set picks \<subseteq> set (r # cands)"
        using p(2) by auto
      moreover have "distinct (r # cands) \<longrightarrow> distinct picks"
        using p(3) by auto
      ultimately show ?thesis by blast
    qed
  qed
qed

lemma diversity_loop_length:
  "length (fst (diversity_loop k cands (sel, cnt))) \<le> max (length sel) (nat k)"
  by (induction k cands "(sel, cnt)" arbitrary: sel cnt rule: diversity_loop.induct) auto

lemma diversity_pass_extends:
  "\<exists>picks. fst (diversity_pass best rest k) = best # picks \<and>
     set picks \<subseteq> set rest \<and> (distinct rest \<longrightarrow> distinct picks)"
proof -
  let ?cands = "filter (\<lambda>r. py_ge (weighted_score r) (py_mul (weighted_score best) (Fin 0.8))) rest"
  obtain picks where
    "fst (diversity_loop k ?cands ([best], (\<lambda>_. 0)(namespace best := 1))) = [best] @ picks"
    "set picks \<subseteq> set ?cands" "distinct ?cands \<longrightarrow> distinct picks"
    using diversity_loop_extends by blast
  then show ?thesis
    by (auto simp: diversity_pass_def Let_def)
qed

lemma length_remaining:
  assumes "distinct xs" and "distinct sel" and "set sel \<subseteq> set xs"
  shows "length (filter (\<lambda>r. r \<notin> set sel) xs) = length xs - length sel"
proof -
  have "length (filter (\<lambda>r. r \<notin> set sel) xs) = card ({r. r \<notin> set sel} \<inter> set xs)"
    using assms(1) by (rule distinct_length_filter)
  also have "{r. r \<notin> set sel} \<inter> set xs = set xs - set sel" by auto
  also have "card (set xs - set sel) = card (set xs) - card (set sel)"
    using assms(3) by (simp add: card_Diff_subset)
  finally show ?thesis
    using assms(1,2) by (simp add: distinct_card)
qed

lemma crowded_pass:
  "fst (diversity_pass (hd crowded_results) (tl crowded_results) 3)
     = [example_result ''a1'' ''faq'' 0.75 0.9, example_result ''a2'' ''faq'' 0.75 0.9]"
  by (simp add: crowded_results_def example_result_def diversity_pass_def)

lemma crowded_select:
  "select_diverse_results crowded_results 3
     = [example_result ''a1'' ''faq'' 0.75 0.9, example_result ''a2'' ''faq'' 0.75 0.9,
        example_result ''a3'' ''faq'' 0.75 0.9]"
  by (simp add: crowded_results_def example_result_def select_diverse_results_def
      diversity_pass_def slice_to_def)

lemma select_backfill:
  assumes "sel = fst (diversity_pass best rest k)" and "int (length sel) < k"
  shows "select_diverse_results (best # rest) k
     = sel @ take (nat k - length sel) (filter (\<lambda>r. r \<notin> set sel) (best # rest))"
proof -
  have k: "0 \<le> k" "0 \<le> k - int (length sel)" and n: "nat (k - int (length sel)) = nat k - length sel"
    using assms(2) by auto
  have "select_diverse_results (best # rest) k
     = slice_to (sel @ slice_to (filter (\<lambda>r. r \<notin> set sel) (best # rest)) (k - int (length sel))) k"
    using assms(2)
    by (simp only: select_diverse_results_def list.case Let_def assms(1) [symmetric] if_True)
  also have "\<dots> = take (nat k)
      (sel @ take (nat k - length sel) (filter (\<lambda>r. r \<notin> set sel) (best # rest)))"
    by (simp only: slice_to_def k if_True n)
  also have "\<dots> = sel @ take (nat k - length sel) (filter (\<lambda>r. r \<notin> set sel) (best # rest))"
    using assms(2) by (simp del: filter.simps)
  finally show ?thesis .
qed

lemma select_length_distinct:
  assumes "distinct results"
  shows "length (select_diverse_results results max_results)
           = min (nat max_results) (length results)"
proof (cases results)
  case Nil
  then show ?thesis by (simp add: select_diverse_results_def)
next
  case (Cons best rest)
  obtain picks where p: "fst (diversity_pass best rest max_results) = best # picks"
      "set picks \<subseteq> set rest" "distinct rest \<longrightarrow> distinct picks"
    using diversity_pass_extends by blast
  let ?sel = "best # picks"
  have d: "distinct ?sel" and s: "set ?sel \<subseteq> set results"
    using assms(1) p(2,3) by (auto simp: Cons)
  have le: "length ?sel \<le> length results"
    using d s assms(1) by (metis card_mono distinct_card List.finite_set)
  have rem: "length (filter (\<lambda>r. r \<notin> set ?sel) results) = length results - length ?sel"
    using assms(1) d s by (rule length_remaining)
  show ?thesis
  proof (cases "int (length ?sel) < max_results")
    case True
    then have "select_diverse_results results max_results =
        take (nat max_results)
          (?sel @ take (nat (max_results - int (length ?sel)))
             (filter (\<lambda>r. r \<notin> set ?sel) results))"
      by (simp add: Cons select_diverse_results_def Let_def p(1) slice_to_def)
    then show ?thesis
      using True le rem by (simp del: set_simps filter.simps)
  next
    case False
    note short = False
    show ?thesis
    proof (cases "0 \<le> max_results")
      case True
      then have "select_diverse_results results max_results = take (nat max_results) ?sel"
        using short by (simp add: Cons select_diverse_results_def Let_def p(1) slice_to_def)
      then show ?thesis
        using short le by simp
    next
      case False
      have "length (fst (diversity_pass best rest max_results)) \<le> 1"
        using False diversity_loop_length [of max_results _ "[best]"]
        by (simp add: diversity_pass_def Let_def)
      then have "picks = []"
        by (simp add: p(1))
      then have "select_diverse_results results max_results = []"
        using False short by (simp add: Cons select_diverse_results_def Let_def p(1) slice_to_def)
      then show ?thesis
        using False by simp
    qed
  qed
qed

text \<open>
  C5. For a list without repeated entries the selection has
  \<open>min(max_results, len(results))\<close> entries, a negative \<open>max_results\<close> counting
  as 0. When the loop over the candidates leaves fewer than \<open>max_results\<close> entries,
  the selection is completed with the results not yet selected, in their order in
  \<open>results\<close>.
\<close>

theorem select_length:
  assumes "distinct results"
  shows "length (select_diverse_results results max_results)
           = min (nat max_results) (length results) \<and>
         (\<forall>best rest sel.
            results = best # rest \<and> sel = fst (diversity_pass best rest max_results) \<and>
            int (length sel) < max_results \<longrightarrow>
            select_diverse_results results max_results
              = sel @ take (nat max_results - length sel)
                        (filter (\<lambda>r. r \<notin> set sel) results))"
  using select_length_distinct [OF assms] select_backfill by blast

theorem select_length_witness:
  "distinct crowded_results \<and>
   fst (diversity_pass (hd crowded_results) (tl crowded_results) 3)
     = [example_result ''a1'' ''faq'' 0.75 0.9, example_result ''a2'' ''faq'' 0.75 0.9] \<and>
   select_diverse_results crowded_results 3
     = [example_result ''a1'' ''faq'' 0.75 0.9, example_result ''a2'' ''faq'' 0.75 0.9,
        example_result ''a3'' ''faq'' 0.75 0.9] \<and>
   length (select_diverse_results crowded_results 3) = min (nat 3) (length crowded_results)"
proof -
  have d: "distinct crowded_results"
    by (simp add: crowded_results_def example_result_def)
  show ?thesis
    using d select_length [OF d, of 3]
    by (simp add: crowded_pass crowded_select)
qed

text \<open>
  The data model gives every match an identifier that is unique within its partition,
  so the list that \<open>search_all_namespaces\<close> returns has no repeated entry
  (\<open>ranked_results_distinct\<close>). \<open>select_diverse_results\<close> called on a list with
  a repeated entry can stay short: \<open>r not in selected\<close> compares by value, and the
  second copy of a selected entry is never a remaining one.
\<close>

lemma select_repeated_entry:
  "select_diverse_results
     [example_result ''a1'' ''faq'' 0.75 0.9, example_result ''a2'' ''faq'' 0.75 0.9,
      example_result ''a1'' ''faq'' 0.75 0.9] 3
   = [example_result ''a1'' ''faq'' 0.75 0.9, example_result ''a2'' ''faq'' 0.75 0.9]"
  by (simp add: example_result_def select_diverse_results_def diversity_pass_def slice_to_def)

text \<open>
  C6. For a non-empty list and \<open>max_results\<close> at least 1, the first entry of the
  list is the first entry of the selection.
\<close>

theorem select_best_first:
  assumes "results \<noteq> []" and "1 \<le> k"
  shows "\<exists>others. select_diverse_results results k = hd results # others"
proof -
  obtain best rest where r: "results = best # rest"
    using assms(1) by (cases results) auto
  obtain picks where p: "fst (diversity_pass best rest k) = best # picks"
    using diversity_pass_extends by blast
  have "\<And>ys. slice_to (best # ys) k = best # take (nat k - 1) ys"
    using assms(2) by (simp add: slice_to_def take_Cons')
  then show ?thesis
    by (simp add: r select_diverse_results_def Let_def p)
qed

theorem select_best_first_witness:
  "crowded_results \<noteq> [] \<and> (1::int) \<le> 3 \<and>
   (\<exists>others. select_diverse_results crowded_results 3 = hd crowded_results # others) \<and>
   hd (select_diverse_results crowded_results 3) = example_result ''a1'' ''faq'' 0.75 0.9"
proof -
  have n: "crowded_results \<noteq> []" by (simp add: crowded_results_def)
  have k: "(1::int) \<le> 3" by simp
  show ?thesis
    using n k select_best_first [OF n k]
    by (simp add: crowded_select) 
qed

text \<open>
  C7. In the list the loop over the candidates leaves (the selection before it is
  completed), every entry after the first was added when fewer than 2 entries of its
  partition had been selected and fewer than \<open>max_results\<close> entries in all. So no
  partition has more than 2 entries in it, nor in the part of the returned selection
  that comes from it. \<open>namespace_count\<close> counts the selected entries of each
  partition.
\<close>

theorem diversity_pass_cap:
  assumes "diversity_pass best rest max_results = (selected, namespace_count)"
  shows "(\<forall>i. 0 < i \<and> i < length selected \<longrightarrow>
            count_namespace (namespace (selected ! i)) (take i selected) < 2 \<and>
            int i < max_results) \<and>
         (\<forall>ns. count_namespace ns selected \<le> 2) \<and>
         (\<forall>ns. count_namespace ns
            (take (length selected) (select_diverse_results (best # rest) max_results)) \<le> 2)"
proof -
  let ?cands = "filter (\<lambda>r. py_ge (weighted_score r) (py_mul (weighted_score best) (Fin 0.8))) rest"
  let ?cnt0 = "(\<lambda>_. 0::nat)(namespace best := 1)"
  have run: "diversity_loop max_results ?cands ([best], ?cnt0) = (selected, namespace_count)"
    using assms by (simp add: diversity_pass_def Let_def)
  have inv0: "\<forall>ns. ?cnt0 ns = count_namespace ns [best]"
    by (simp add: count_namespace_def)
  have cap0: "\<forall>ns. ?cnt0 ns \<le> 2" by simp
  note c = diversity_loop_counts [OF inv0 run]
  have cap: "\<forall>ns. count_namespace ns selected \<le> 2"
    using diversity_loop_cap [OF cap0 run] c by simp
  have added: "\<forall>i. 0 < i \<and> i < length selected \<longrightarrow>
      count_namespace (namespace (selected ! i)) (take i selected) < 2 \<and> int i < max_results"
    using c by (simp add: Suc_le_eq)
  have "\<exists>n tail. select_diverse_results (best # rest) max_results = take n (selected @ tail)"
  proof -
    define tail where "tail =
      (if int (length selected) < max_results
       then slice_to (filter (\<lambda>r. r \<notin> set selected) (best # rest))
              (max_results - int (length selected))
       else [])"
    have "select_diverse_results (best # rest) max_results
        = slice_to (selected @ tail) max_results"
    proof (cases "int (length selected) < max_results")
      case True
      then show ?thesis
        by (simp only: select_diverse_results_def list.case Let_def assms fst_conv tail_def
            if_True)
    next
      case False
      then show ?thesis
        by (simp only: select_diverse_results_def list.case Let_def assms fst_conv tail_def
            if_False append_Nil2)
    qed
    moreover have "\<exists>n. slice_to (selected @ tail) max_results = take n (selected @ tail)"
      by (rule slice_to_is_take)
    ultimately show ?thesis by metis
  qed
  then obtain n tail where
    sel: "select_diverse_results (best # rest) max_results = take n (selected @ tail)" by blast
  have "take (length selected) (take n (selected @ tail))
      = take (min (length selected) n) (selected @ tail)"
    by (rule take_take)
  also have "\<dots> = take (min (length selected) n) selected"
    by simp
  finally have "take (length selected) (select_diverse_results (best # rest) max_results)
      = take (min (length selected) n) selected"
    by (simp only: sel)
  then have "\<forall>ns. count_namespace ns
      (take (length selected) (select_diverse_results (best # rest) max_results)) \<le> 2"
    using cap count_namespace_take le_trans by metis
  with added cap show ?thesis by blast
qed

theorem diversity_pass_cap_witness:
  "fst (diversity_pass (hd crowded_results) (tl crowded_results) 3)
     = [example_result ''a1'' ''faq'' 0.75 0.9, example_result ''a2'' ''faq'' 0.75 0.9] \<and>
   count_namespace ''faq'' (tl crowded_results) = 2 \<and>
   count_namespace ''faq'' (fst (diversity_pass (hd crowded_results) (tl crowded_results) 3)) \<le> 2 \<and>
   count_namespace ''faq''
     (take 1 (fst (diversity_pass (hd crowded_results) (tl crowded_results) 3))) < 2"
  using diversity_pass_cap [of "hd crowded_results" "tl crowded_results" 3
      "fst (diversity_pass (hd crowded_results) (tl crowded_results) 3)"
      "snd (diversity_pass (hd crowded_results) (tl crowded_results) 3)"]
  by (simp add: crowded_pass) (simp add: crowded_results_def example_result_def count_namespace_def)

text \<open>
  C10. With \<open>max_results = 0\<close> the selection is empty for every list: the final
  slice drops the best result as well.
\<close>

theorem select_zero: "select_diverse_results results 0 = []"
  by (cases results) (simp_all add: select_diverse_results_def slice_to_def Let_def)

theorem select_zero_witness:
  "crowded_results \<noteq> [] \<and> select_diverse_results crowded_results 0 = []"
  using select_zero [of crowded_results] by (simp add: crowded_results_def)

subsection \<open>Scores that are missing or NaN\<close>







subsection \<open>Failing collaborators\<close>

lemma enumeration_order_all_fail:
  "list_all (\<lambda>(ns, config). isl (search (top_k config) ns)) configs \<Longrightarrow>
   enumeration_order configs search = []"
  by (induction configs search rule: enumeration_order.induct) (auto split: sum.splits)

text \<open>
  C9, as stated, fails: when the embedding call raises, \<open>search_and_answer\<close>
  raises.
\<close>

theorem embedding_failure_counterexample:
  "search_and_answer namespace_configs failing_embedding example_query fixed_answer ''q''
     = Inl ServiceError"
  by (simp add: search_and_answer_def create_query_embedding_def failing_embedding_def)

text \<open>
  C9, amended. When the embedding call raises, \<open>search_and_answer\<close> raises the
  same exception. When the embedding call returns and the similarity search raises for
  every partition, \<open>search_and_answer\<close> returns the fixed answer with confidence
  \<open>none\<close>, confidence score 0 and no results.
\<close>

theorem upstream_failure:
  "(embeddings_create text = Inl e \<longrightarrow>
      search_and_answer configs embeddings_create index_query generate text = Inl e) \<and>
   (embeddings_create text = Inr v \<and>
    list_all (\<lambda>(ns, config). isl (index_query v (top_k config) ns)) configs \<longrightarrow>
      search_and_answer configs embeddings_create index_query generate text
        = Inr \<lparr>resp_query = text, resp_answer = not_found_answer, resp_confidence = ''none'',
               resp_confidence_score = Fin 0, resp_results = [], resp_sources = None\<rparr>)"
  by (auto simp: search_and_answer_def create_query_embedding_def search_all_namespaces_def
      collect_namespaces_enumeration enumeration_order_all_fail list_sort_def listsort_def binary_insert_def bisect_lt bisect_ge bisect_done)

theorem upstream_failure_witness:
  "failing_embedding ''q'' = Inl ServiceError \<and>
   search_and_answer namespace_configs failing_embedding failing_query fixed_answer ''q''
     = Inl ServiceError \<and>
   constant_embedding ''q'' = Inr [Fin 0.25, Fin 0.5] \<and>
   list_all (\<lambda>(ns, config). isl (failing_query [Fin 0.25, Fin 0.5] (top_k config) ns))
     namespace_configs \<and>
   search_and_answer namespace_configs constant_embedding failing_query fixed_answer ''q''
     = Inr \<lparr>resp_query = ''q'', resp_answer = not_found_answer, resp_confidence = ''none'',
            resp_confidence_score = Fin 0, resp_results = [], resp_sources = None\<rparr>"
  using
    upstream_failure [of failing_embedding "''q''" ServiceError namespace_configs failing_query
      fixed_answer "[]"]
    upstream_failure [of constant_embedding "''q''" ServiceError namespace_configs failing_query
      fixed_answer "[Fin 0.25, Fin 0.5]"]
  by (simp add: failing_embedding_def constant_embedding_def failing_query_def
      namespace_configs_def)

end
